theory Spec2Isabelle
  imports Main "HOL-Library.Word"
begin

section \<open>Machine types\<close>

text \<open>
  The C++ scalar types of the two source files on an LP64 target.  A signed \<open>int\<close> is a
  32-bit word read with \<open>sint\<close>; \<open>size_t\<close> is an unsigned 64-bit word; a \<open>float\<close> is only
  ever copied by the table code, so it is carried as its 32-bit pattern.  The table's
  \<open>dim_\<close>, \<open>shard_num_\<close> and \<open>self_shard_id_\<close> are C++ \<open>int\<close>s that are compared, printed and
  used as loop bounds but never computed with, so they are HOL integers.  A C++ member
  \<open>x_\<close> is the record field \<open>x'\<close>, since a name cannot end in an underscore here.
\<close>

type_synonym c_int = "32 word"
type_synonym size_t = "64 word"
type_synonym uint32 = "32 word"
type_synonym uint64 = "64 word"
type_synonym float32 = "32 word"

section \<open>adam\_kernel.h: the size of a sparse Adam record\<close>

definition sizeof_float :: size_t where
  "sizeof_float = 4"

text \<open>\<open>SparseAdamValue::IsMiniDim\<close>: \<open>UnionWeight\<close> could store two floats.\<close>

definition IsMiniDim :: "c_int \<Rightarrow> bool" where
  "IsMiniDim dim = (if 2 > sint dim then True else False)"

text \<open>
  \<open>SparseAdamValue::DynSizeof\<close>.  \<open>sizeof(SparseAdamValue)\<close> depends on \<open>UnionWeight\<close>, which
  is declared in \<open>data_struct.h\<close>; it is the first parameter.  The sum is computed in
  \<open>size_t\<close>: \<open>dim\<close> is converted from \<open>int\<close> (sign extension, \<open>scast\<close>), and the result is
  converted to the return type \<open>int\<close> (the low 32 bits, \<open>ucast\<close>).
\<close>

definition DynSizeof :: "size_t \<Rightarrow> c_int \<Rightarrow> c_int" where
  "DynSizeof sizeof_SparseAdamValue dim =
     ucast (sizeof_SparseAdamValue +
            sizeof_float * scast dim * 3 * (if IsMiniDim dim then 0 else 1))"

section \<open>adam\_kernel.h: the stream format of a sparse Adam record\<close>

text \<open>
  A \<open>SparseAdamValue\<close> as its accessors show it: \<open>Weight()\<close>, \<open>M()\<close> and \<open>V()\<close> each give
  \<open>dim_\<close> floats, from the inline union when \<open>IsMiniDim_()\<close> holds and from the trailing
  \<open>data\<close> region otherwise.
\<close>

record SparseAdamValue =
  value_dim' :: int
  Weight :: "float32 list"
  M :: "float32 list"
  V :: "float32 list"
  show' :: float32

text \<open>A record is well formed when each of its three arrays holds \<open>dim_\<close> floats.\<close>

definition value_ok :: "SparseAdamValue \<Rightarrow> bool" where
  "value_ok value =
     (length (Weight value) = nat (value_dim' value) \<and>
      length (M value) = nat (value_dim' value) \<and>
      length (V value) = nat (value_dim' value))"

text \<open>
  Modelled from the spec: the body of \<open>operator<<\<close> for \<open>SparseAdamValue\<close> is in
  \<open>adam_kernel.cc\<close>, which is not among the sources; the header only declares it.
  Following section 4.1 of the specification, \<open>Write\<close> emits \<open>show\<close> followed by the three
  float arrays in weight, moment1, moment2 order.  The stream is the sequence of float
  values written.
\<close>

definition Write :: "SparseAdamValue \<Rightarrow> float32 list" where
  "Write value = show' value # Weight value @ M value @ V value"

text \<open>
  Modelled from the spec: the body of \<open>operator>>\<close> for \<open>SparseAdamValue\<close> is in
  \<open>adam_kernel.cc\<close> as well.  Following section 4.1, \<open>Read\<close> is the inverse of \<open>Write\<close>: it
  fills a record whose dimension was fixed at construction, fails on a stream that is too
  short, and returns the rest of the stream.
\<close>

definition Read :: "SparseAdamValue \<Rightarrow> float32 list \<Rightarrow> (SparseAdamValue \<times> float32 list) option" where
  "Read value is =
     (let d = nat (value_dim' value) in
      if length is < 1 + 3 * d then None
      else Some (value\<lparr>show' := hd is,
                       Weight := take d (tl is),
                       M := take d (drop d (tl is)),
                       V := take d (drop (2 * d) (tl is))\<rparr>,
                 drop (1 + 3 * d) is))"

text \<open>
  The dense record of the header: two bias-correction powers and three arrays (\<open>w_\<close>,
  \<open>m_\<close>, \<open>v_\<close>) whose sizes are fixed at construction.
\<close>

record DenseAdamValue =
  beta1_power' :: float32
  beta2_power' :: float32
  dense_w :: "float32 list"
  dense_m :: "float32 list"
  dense_v :: "float32 list"

text \<open>
  Modelled from the spec: the body of \<open>operator<<\<close> for \<open>DenseAdamValue\<close> is in
  \<open>adam_kernel.cc\<close>.  Following section 4.1, \<open>Write\<close> emits the two bias terms followed by
  the three arrays in weight, moment1, moment2 order.
\<close>

definition Write_dense :: "DenseAdamValue \<Rightarrow> float32 list" where
  "Write_dense value =
     beta1_power' value # beta2_power' value # dense_w value @ dense_m value @ dense_v value"

text \<open>
  Modelled from the spec: the body of \<open>operator>>\<close> for \<open>DenseAdamValue\<close> is in
  \<open>adam_kernel.cc\<close>.  Following section 4.1, \<open>Read\<close> is the inverse of \<open>Write\<close>, into a
  record whose array sizes were fixed at construction.
\<close>

definition Read_dense ::
  "DenseAdamValue \<Rightarrow> float32 list \<Rightarrow> (DenseAdamValue \<times> float32 list) option" where
  "Read_dense value is =
     (let nw = length (dense_w value); nm = length (dense_m value); nv = length (dense_v value) in
      if length is < 2 + nw + nm + nv then None
      else Some (value\<lparr>beta1_power' := is ! 0,
                       beta2_power' := is ! 1,
                       dense_w := take nw (drop 2 is),
                       dense_m := take nm (drop (2 + nw) is),
                       dense_v := take nv (drop (2 + nw + nm) is)\<rparr>,
                 drop (2 + nw + nm + nv) is))"

section \<open>sparse\_table.cc: requests, responses and the table\<close>

text \<open>
  Every \<open>CHECK\<close> of the file is a fatal abort; each one is a constructor.  \<open>read_past_buffer\<close>
  stands for the undefined behaviour of reading \<open>w[j]\<close> beyond the buffer that the kernel
  returned.
\<close>

datatype failure =
    CHECK_opt_not_null
  | CHECK_handle_is_zero
  | CHECK_EQ_dim
  | CHECK_weight_not_null
  | CHECK_EQ_w_size
  | CHECK_table_handle_in_range
  | read_past_buffer

record SparseGradInfo =
  sign :: uint64
  batch_show :: float32
  grad :: "float32 list"

text \<open>The protobuf messages, with the fields that the table reads and writes.\<close>

record VarInfo =
  var_sign :: uint64
  var_batch_show :: float32
  var_w :: "float32 list"

record SparsePushRequest =
  push_dim :: int
  var_infos :: "VarInfo list"

record SparsePullRequest =
  pull_table_handle :: uint32
  pull_dim :: int
  signs :: "uint64 list"

record SparsePullResponse =
  resp_table_handle :: uint32
  resp_dim :: int
  weights :: "float32 list list"

text \<open>
  The table.  The optimizer \<open>'o\<close> and its kernel \<open>'k\<close> are declared in headers outside the
  sources and stay abstract; the kernel's functions are parameters of the operations that
  call them.  The gradient queue is a first-in first-out list (section 4.3): \<open>push\<close>
  appends, \<open>pop\<close> takes the head or reports that the queue is empty.
\<close>

record ('o, 'k) SparseTable =
  shard_num' :: int
  self_shard_id' :: int
  opt' :: 'o
  dim' :: int
  handle' :: uint32
  op_kernel' :: 'k
  grad_update_queue' :: "SparseGradInfo list"
  stop_thread' :: bool

text \<open>
  The constructor.  A null \<open>opt\<close> is \<open>None\<close>; the start of the applier thread is the
  initial state of the thread model further down.

  Modelled from the spec: the default member initialisers of \<open>handle_\<close> and \<open>stop_thread_\<close>
  are in \<open>sparse_table.h\<close>, which is not among the sources.  The handle is assigned after
  construction (section 4.4), and the first \<open>SetHandle\<close> passes its check only on zero,
  so \<open>handle_\<close> starts at zero; the table is running when the constructor returns, so
  \<open>stop_thread_\<close> starts at \<open>false\<close>.
\<close>

definition SparseTable_new ::
  "('o \<Rightarrow> int \<Rightarrow> 'k) \<Rightarrow> 'o option \<Rightarrow> int \<Rightarrow> int \<Rightarrow> int \<Rightarrow> failure + ('o, 'k) SparseTable" where
  "SparseTable_new CreateSparseOptKernel opt dimension shard_num self_shard_id =
     (case opt of
        None \<Rightarrow> Inl CHECK_opt_not_null
      | Some adam \<Rightarrow>
          Inr \<lparr>shard_num' = shard_num,
               self_shard_id' = self_shard_id,
               opt' = adam,
               dim' = dimension,
               handle' = 0,
               op_kernel' = CreateSparseOptKernel adam dimension,
               grad_update_queue' = [],
               stop_thread' = False\<rparr>)"

definition SetHandle :: "uint32 \<Rightarrow> ('o, 'k) SparseTable \<Rightarrow> failure + ('o, 'k) SparseTable" where
  "SetHandle handle table =
     (if handle' table = 0 then Inr (table\<lparr>handle' := handle\<rparr>)
      else Inl CHECK_handle_is_zero)"

text \<open>
  Modelled from the spec: \<open>GetHandle\<close> is defined in \<open>sparse_table.h\<close>; it is the accessor
  of the handle that \<open>SetHandle\<close> assigned.
\<close>

definition GetHandle :: "('o, 'k) SparseTable \<Rightarrow> uint32" where
  "GetHandle table = handle' table"

subsection \<open>Pull\<close>

text \<open>
  The loop over \<open>req->signs\<close>.  \<open>GetWeight\<close> is the kernel's; it returns a pointer, here the
  buffer it points to or \<open>None\<close> for a null pointer, and may change the kernel.
\<close>

fun Pull_signs ::
  "(uint64 \<Rightarrow> 'k \<Rightarrow> float32 list option \<times> 'k) \<Rightarrow> int \<Rightarrow> uint64 list \<Rightarrow> 'k \<Rightarrow>
   SparsePullResponse \<Rightarrow> failure + (SparsePullResponse \<times> 'k)" where
  "Pull_signs GetWeight dim [] kern resp = Inr (resp, kern)"
| "Pull_signs GetWeight dim (s # rest) kern resp =
     (case GetWeight s kern of
        (None, kern') \<Rightarrow> Inl CHECK_weight_not_null
      | (Some w, kern') \<Rightarrow>
          if length w < nat dim then Inl read_past_buffer
          else Pull_signs GetWeight dim rest kern'
                 (resp\<lparr>weights := weights resp @ [map (\<lambda>j. w ! j) [0..<nat dim]]\<rparr>))"

definition Pull ::
  "(uint64 \<Rightarrow> 'k \<Rightarrow> float32 list option \<times> 'k) \<Rightarrow> SparsePullRequest \<Rightarrow> SparsePullResponse \<Rightarrow>
   ('o, 'k) SparseTable \<Rightarrow> failure + (SparsePullResponse \<times> ('o, 'k) SparseTable)" where
  "Pull GetWeight req resp table =
     (let resp1 = resp\<lparr>resp_table_handle := pull_table_handle req\<rparr> in
      if dim' table \<noteq> pull_dim req then Inl CHECK_EQ_dim
      else
        let resp2 = resp1\<lparr>resp_dim := pull_dim req\<rparr> in
        case Pull_signs GetWeight (dim' table) (signs req) (op_kernel' table) resp2 of
          Inl e \<Rightarrow> Inl e
        | Inr (resp3, kern') \<Rightarrow> Inr (resp3, table\<lparr>op_kernel' := kern'\<rparr>))"

text \<open>The kernel after the lookups of a list of keys, in order.\<close>

fun kernel_after :: "(uint64 \<Rightarrow> 'k \<Rightarrow> float32 list option \<times> 'k) \<Rightarrow> uint64 list \<Rightarrow> 'k \<Rightarrow> 'k" where
  "kernel_after GetWeight [] kern = kern"
| "kernel_after GetWeight (s # rest) kern =
     kernel_after GetWeight rest (snd (GetWeight s kern))"

text \<open>
  What \<open>Pull\<close> is expected to put in the response: for each key in request order, the
  first \<open>dim\<close> floats of the buffer that \<open>GetWeight\<close> returns for it.
\<close>

fun weights_in_order ::
  "(uint64 \<Rightarrow> 'k \<Rightarrow> float32 list option \<times> 'k) \<Rightarrow> int \<Rightarrow> uint64 list \<Rightarrow> 'k \<Rightarrow> float32 list list" where
  "weights_in_order GetWeight dim [] kern = []"
| "weights_in_order GetWeight dim (s # rest) kern =
     (case fst (GetWeight s kern) of None \<Rightarrow> [] | Some w \<Rightarrow> take (nat dim) w)
       # weights_in_order GetWeight dim rest (snd (GetWeight s kern))"

subsection \<open>Push\<close>

text \<open>
  The loop over \<open>req->var_infos\<close>, threading the queue.  The result is the failed check, if
  any, and the queue at that point.
\<close>

fun Push_var_infos ::
  "int \<Rightarrow> VarInfo list \<Rightarrow> SparseGradInfo list \<Rightarrow> failure option \<times> SparseGradInfo list" where
  "Push_var_infos dim [] queue = (None, queue)"
| "Push_var_infos dim (var_info # rest) queue =
     (if int (length (var_w var_info)) \<noteq> dim then (Some CHECK_EQ_w_size, queue)
      else Push_var_infos dim rest
             (queue @ [\<lparr>sign = var_sign var_info,
                        batch_show = var_batch_show var_info,
                        grad = map (\<lambda>j. var_w var_info ! j) [0..<length (var_w var_info)]\<rparr>]))"

definition Push ::
  "SparsePushRequest \<Rightarrow> ('o, 'k) SparseTable \<Rightarrow> failure option \<times> ('o, 'k) SparseTable" where
  "Push req table =
     (if dim' table \<noteq> push_dim req then (Some CHECK_EQ_dim, table)
      else
        case Push_var_infos (dim' table) (var_infos req) (grad_update_queue' table) of
          (r, queue') \<Rightarrow> (r, table\<lparr>grad_update_queue' := queue'\<rparr>))"

text \<open>The \<open>SparseGradInfo\<close> that one iteration of the loop builds from an entry.\<close>

definition grad_info_of :: "VarInfo \<Rightarrow> SparseGradInfo" where
  "grad_info_of var_info =
     \<lparr>sign = var_sign var_info, batch_show = var_batch_show var_info, grad = var_w var_info\<rparr>"

subsection \<open>Save and Load\<close>

text \<open>\<open>std::to_string\<close> on an unsigned and on a signed integer: decimal digits.\<close>

fun decimal :: "nat \<Rightarrow> string" where
  "decimal n =
     (if n < 10 then [''0123456789'' ! n]
      else decimal (n div 10) @ [''0123456789'' ! (n mod 10)])"

declare decimal.simps [simp del]

definition to_string_uint32 :: "uint32 \<Rightarrow> string" where
  "to_string_uint32 n = decimal (unat n)"

definition to_string_int :: "int \<Rightarrow> string" where
  "to_string_int i = (if i < 0 then CHR ''-'' # decimal (nat (- i)) else decimal (nat i))"

text \<open>
  \<open>Save\<close> and \<open>Load\<close> hand the file name and the kernel to the kernel's \<open>Serialized\<close> and
  \<open>DeSerialized\<close>, which are parameters; the timer and the log line are left out.
\<close>

definition Save :: "(string \<Rightarrow> 'k \<Rightarrow> 'r) \<Rightarrow> string \<Rightarrow> ('o, 'k) SparseTable \<Rightarrow> 'r" where
  "Save Serialized filepath table =
     (let file = filepath @ ''/sparse_table/'' @ to_string_uint32 (GetHandle table)
                   @ ''/rank_'' @ to_string_int (self_shard_id' table)
      in Serialized file (op_kernel' table))"

definition Load :: "(string \<Rightarrow> 'k \<Rightarrow> 'r) \<Rightarrow> string \<Rightarrow> ('o, 'k) SparseTable \<Rightarrow> 'r" where
  "Load DeSerialized filepath table =
     (let file = filepath @ ''/sparse_table/'' @ to_string_uint32 (GetHandle table)
                   @ ''/rank_'' @ to_string_int (self_shard_id' table)
      in DeSerialized file (op_kernel' table))"

text \<open>The on-disk layout in the specification's words.\<close>

definition spec_shard_file :: "string \<Rightarrow> uint32 \<Rightarrow> int \<Rightarrow> string" where
  "spec_shard_file directory table_handle shard_id =
     directory @ ''/sparse_table/'' @ to_string_uint32 table_handle
       @ ''/rank_'' @ to_string_int shard_id"

section \<open>sparse\_table.cc: the registry\<close>

text \<open>The registry holds table pointers \<open>'p\<close> in a vector.\<close>

record 'p SparseTableRegistry =
  tables' :: "'p list"

definition Get :: "uint32 \<Rightarrow> 'p SparseTableRegistry \<Rightarrow> failure + 'p" where
  "Get table_handle registry =
     (if unat table_handle < length (tables' registry)
      then Inr (tables' registry ! unat table_handle)
      else Inl CHECK_table_handle_in_range)"

text \<open>\<open>tables_.size()\<close> is a \<open>size_t\<close>; the handle is its low 32 bits.\<close>

definition Register :: "'p \<Rightarrow> 'p SparseTableRegistry \<Rightarrow> uint32 \<times> 'p SparseTableRegistry" where
  "Register table registry =
     (let table_handle = ucast (of_nat (length (tables' registry)) :: size_t)
      in (table_handle, registry\<lparr>tables' := tables' registry @ [table]\<rparr>))"

text \<open>Registering a list of tables one after the other, collecting the handles.\<close>

fun Register_all :: "'p list \<Rightarrow> 'p SparseTableRegistry \<Rightarrow> uint32 list \<times> 'p SparseTableRegistry" where
  "Register_all [] registry = ([], registry)"
| "Register_all (table # rest) registry =
     (case Register table registry of
        (h, registry') \<Rightarrow>
          (case Register_all rest registry' of (hs, registry'') \<Rightarrow> (h # hs, registry'')))"

text \<open>\<open>CreateSparseTable\<close>; \<open>p\<close> is the pointer that \<open>new\<close> returned.\<close>

definition CreateSparseTable ::
  "('o \<Rightarrow> int \<Rightarrow> 'k) \<Rightarrow> 'p \<Rightarrow> 'o option \<Rightarrow> int \<Rightarrow> int \<Rightarrow> int \<Rightarrow> 'p SparseTableRegistry \<Rightarrow>
   failure + (('o, 'k) SparseTable \<times> 'p SparseTableRegistry)" where
  "CreateSparseTable CreateSparseOptKernel p opt dimension shard_num self_shard_id registry =
     (case SparseTable_new CreateSparseOptKernel opt dimension shard_num self_shard_id of
        Inl e \<Rightarrow> Inl e
      | Inr table \<Rightarrow>
          (case Register p registry of
             (h, registry') \<Rightarrow>
               (case SetHandle h table of
                  Inl e \<Rightarrow> Inl e
                | Inr table' \<Rightarrow> Inr (table', registry'))))"

section \<open>sparse\_table.cc: the applier thread and the destructor\<close>

text \<open>
  The applier thread runs \<open>UpdateGrad_\<close> (here \<open>UpdateGrad\<close>); its program counter is at
  the test of the outer \<open>while\<close>, at the \<open>pop\<close> of the inner \<open>while\<close>, at the call of
  \<open>Apply\<close> with the item it popped, or past the end of the function.  The destructor sets \<open>stop_thread_\<close> and then
  waits in \<open>join\<close> until the thread has exited.  Threads interleave at these points, and
  each sees the writes of the others at once; a schedule is the list of who moves next.
  \<open>Apply_calls\<close> records each call of the kernel's \<open>Apply\<close>; releasing the gradient buffer
  after the call changes nothing here.
\<close>

datatype applier_pc =
    at_outer_while
  | at_inner_pop
  | at_Apply SparseGradInfo
  | thread_exited

datatype dtor_pc =
    dtor_not_called
  | dtor_at_join
  | dtor_returned

record ('o, 'k) World =
  table :: "('o, 'k) SparseTable"
  applier :: applier_pc
  dtor :: dtor_pc
  Apply_calls :: "SparseGradInfo list"

datatype event =
    applier_moves
  | destructor_moves
  | push_enqueues SparseGradInfo

text \<open>The world when the constructor returns: the thread has been started.\<close>

definition World_start :: "('o, 'k) SparseTable \<Rightarrow> ('o, 'k) World" where
  "World_start t = \<lparr>table = t, applier = at_outer_while, dtor = dtor_not_called, Apply_calls = []\<rparr>"

definition UpdateGrad ::
  "(uint64 \<Rightarrow> SparseGradInfo \<Rightarrow> 'k \<Rightarrow> 'k) \<Rightarrow> ('o, 'k) World \<Rightarrow> ('o, 'k) World" where
  "UpdateGrad Apply w =
     (case applier w of
        at_outer_while \<Rightarrow>
          if stop_thread' (table w) then w\<lparr>applier := thread_exited\<rparr>
          else w\<lparr>applier := at_inner_pop\<rparr>
      | at_inner_pop \<Rightarrow>
          (case grad_update_queue' (table w) of
             [] \<Rightarrow> w\<lparr>applier := at_outer_while\<rparr>
           | grad_info # queue' \<Rightarrow>
               w\<lparr>table := (table w)\<lparr>grad_update_queue' := queue'\<rparr>,
                 applier := at_Apply grad_info\<rparr>)
      | at_Apply grad_info \<Rightarrow>
          w\<lparr>table := (table w)\<lparr>op_kernel' :=
                        Apply (sign grad_info) grad_info (op_kernel' (table w))\<rparr>,
            Apply_calls := Apply_calls w @ [grad_info],
            applier := at_inner_pop\<rparr>
      | thread_exited \<Rightarrow> w)"

definition destructor :: "('o, 'k) World \<Rightarrow> ('o, 'k) World" where
  "destructor w =
     (case dtor w of
        dtor_not_called \<Rightarrow> w\<lparr>table := (table w)\<lparr>stop_thread' := True\<rparr>, dtor := dtor_at_join\<rparr>
      | dtor_at_join \<Rightarrow> if applier w = thread_exited then w\<lparr>dtor := dtor_returned\<rparr> else w
      | dtor_returned \<Rightarrow> w)"

definition step ::
  "(uint64 \<Rightarrow> SparseGradInfo \<Rightarrow> 'k \<Rightarrow> 'k) \<Rightarrow> event \<Rightarrow> ('o, 'k) World \<Rightarrow> ('o, 'k) World" where
  "step Apply e w =
     (case e of
        applier_moves \<Rightarrow> UpdateGrad Apply w
      | destructor_moves \<Rightarrow> destructor w
      | push_enqueues grad_info \<Rightarrow>
          w\<lparr>table := (table w)\<lparr>grad_update_queue' :=
                        grad_update_queue' (table w) @ [grad_info]\<rparr>\<rparr>)"

fun run ::
  "(uint64 \<Rightarrow> SparseGradInfo \<Rightarrow> 'k \<Rightarrow> 'k) \<Rightarrow> event list \<Rightarrow> ('o, 'k) World \<Rightarrow> ('o, 'k) World" where
  "run Apply [] w = w"
| "run Apply (e # es) w = run Apply es (step Apply e w)"

section \<open>Example values\<close>

text \<open>
  A table of dimension 2 with handle 3 on shard 1, whose kernel is a counter of the
  lookups made so far; a \<open>GetWeight\<close> that returns the key and the counter as the two
  weights; an empty response; a pull request for the keys 10 and 20; a push request
  whose second entry has one gradient component instead of two.
\<close>

definition ex_table :: "(unit, nat) SparseTable" where
  "ex_table =
     \<lparr>shard_num' = 2, self_shard_id' = 1, opt' = (), dim' = 2, handle' = 3,
      op_kernel' = 0, grad_update_queue' = [], stop_thread' = False\<rparr>"

definition ex_GetWeight :: "uint64 \<Rightarrow> nat \<Rightarrow> float32 list option \<times> nat" where
  "ex_GetWeight s n = (Some [ucast s, of_nat n], Suc n)"

definition ex_resp :: SparsePullResponse where
  "ex_resp = \<lparr>resp_table_handle = 0, resp_dim = 0, weights = []\<rparr>"

definition ex_pull :: SparsePullRequest where
  "ex_pull = \<lparr>pull_table_handle = 3, pull_dim = 2, signs = [10, 20]\<rparr>"

definition ex_push :: SparsePushRequest where
  "ex_push =
     \<lparr>push_dim = 2,
      var_infos = [\<lparr>var_sign = 10, var_batch_show = 1, var_w = [5, 6]\<rparr>,
                   \<lparr>var_sign = 20, var_batch_show = 1, var_w = [7]\<rparr>,
                   \<lparr>var_sign = 30, var_batch_show = 1, var_w = [8, 9]\<rparr>]\<rparr>"

text \<open>
  A sparse record of dimension \<open>d\<close> with distinct entries, and a freshly constructed one
  to read into.
\<close>

definition ex_value :: "int \<Rightarrow> SparseAdamValue" where
  "ex_value d =
     \<lparr>value_dim' = d, Weight = map of_nat [1..<Suc (nat d)], M = map of_nat [11..<11 + nat d],
      V = map of_nat [21..<21 + nat d], show' = 7\<rparr>"

definition blank_value :: "int \<Rightarrow> SparseAdamValue" where
  "blank_value d =
     \<lparr>value_dim' = d, Weight = replicate (nat d) 0, M = replicate (nat d) 0,
      V = replicate (nat d) 0, show' = 0\<rparr>"

text \<open>
  A kernel \<open>Apply\<close> that counts its calls, a gradient for a key, and two schedules: in the
  first a gradient is pushed and applied, then the destructor sets the stop flag, the
  applier thread leaves its loop and the destructor's \<open>join\<close> returns; the second pushes
  another gradient afterwards and lets the applier move.
\<close>

definition ex_Apply :: "uint64 \<Rightarrow> SparseGradInfo \<Rightarrow> nat \<Rightarrow> nat" where
  "ex_Apply s grad_info n = Suc n"

definition ex_grad :: "uint64 \<Rightarrow> SparseGradInfo" where
  "ex_grad s = \<lparr>sign = s, batch_show = 1, grad = [5, 6]\<rparr>"

definition ex_schedule :: "event list" where
  "ex_schedule =
     [push_enqueues (ex_grad 10), applier_moves, applier_moves, applier_moves, applier_moves,
      destructor_moves, destructor_moves, applier_moves, destructor_moves]"

definition ex_later :: "event list" where
  "ex_later = [push_enqueues (ex_grad 20), applier_moves, applier_moves]"

section \<open>The size of a record\<close>

lemma narrow_of_int: "(ucast (word_of_int x :: size_t) :: c_int) = word_of_int x"
  by (simp add: ucast_eq unsigned_of_int word_of_int_eq_iff take_bit_take_bit)

lemma size_t_sum: "H + 4 * scast d * 3 = (word_of_int (uint H + 12 * sint d) :: size_t)"
proof -
  have a: "(scast d :: size_t) = word_of_int (sint d)"
    by (rule scast_eq)
  have "H + 4 * scast d * 3 = word_of_int (uint H) + 4 * (word_of_int (sint d) :: size_t) * 3"
    by (simp only: a word_of_int_uint)
  also have "\<dots> = word_of_int (uint H + 12 * sint d)"
    by (simp add: algebra_simps)
  finally show ?thesis .
qed

lemma DynSizeof_of_int:
  "DynSizeof H d = word_of_int (uint H + (if sint d < 2 then 0 else 12 * sint d))"
proof (cases "sint d < 2")
  case True
  then have "DynSizeof H d = ucast H"
    by (simp add: DynSizeof_def IsMiniDim_def)
  also have "\<dots> = word_of_int (uint H)"
    by (rule ucast_eq)
  finally show ?thesis
    using True by (simp only: if_True add_0_right)
next
  case False
  then have "DynSizeof H d = ucast (H + 4 * scast d * 3)"
    by (simp add: DynSizeof_def IsMiniDim_def sizeof_float_def)
  with False show ?thesis
    by (simp only: size_t_sum narrow_of_int if_False)
qed

lemma sint_fits: "0 \<le> x \<Longrightarrow> x < 2 ^ 31 \<Longrightarrow> sint (word_of_int x :: c_int) = x"
  by (simp add: signed_of_int signed_take_bit_int_eq_self)

text \<open>
  C1, as amended.  For every dimension \<open>d\<close>, \<open>DynSizeof d\<close> is \<open>sizeof(SparseAdamValue)\<close> when
  \<open>d < 2\<close>, and \<open>sizeof(SparseAdamValue) + 3 * d * 4\<close> when \<open>d \<ge> 2\<close> and that sum is at most
  \<open>INT_MAX\<close>, the largest value of the return type (the header size itself being at most
  \<open>INT_MAX\<close>).
\<close>

theorem DynSizeof_exact:
  "(sint d < 2 \<and> uint H < 2 ^ 31 \<longrightarrow> sint (DynSizeof H d) = uint H) \<and>
   (2 \<le> sint d \<and> uint H + 3 * sint d * 4 < 2 ^ 31 \<longrightarrow>
      sint (DynSizeof H d) = uint H + 3 * sint d * 4)"
proof (intro conjI impI)
  assume a: "sint d < 2 \<and> uint H < 2 ^ 31"
  then have "DynSizeof H d = word_of_int (uint H)"
    by (simp only: DynSizeof_of_int if_True add_0_right)
  moreover have "sint (word_of_int (uint H) :: c_int) = uint H"
    using a by (intro sint_fits) simp_all
  ultimately show "sint (DynSizeof H d) = uint H"
    by (simp only:)
next
  assume a: "2 \<le> sint d \<and> uint H + 3 * sint d * 4 < 2 ^ 31"
  then have "\<not> sint d < 2"
    by simp
  then have "DynSizeof H d = word_of_int (uint H + 12 * sint d)"
    by (simp only: DynSizeof_of_int if_False)
  moreover have "sint (word_of_int (uint H + 12 * sint d) :: c_int) = uint H + 12 * sint d"
    using a by (intro sint_fits) simp_all
  ultimately show "sint (DynSizeof H d) = uint H + 3 * sint d * 4"
    by simp
qed

text \<open>
  The tested dimensions 1, 2, 3, 8 and 64 with a header of 32 bytes: 32, 56, 68, 128 and
  800 bytes.
\<close>

theorem DynSizeof_exact_witness:
  "sint (DynSizeof 32 1) = 32 \<and> sint (DynSizeof 32 2) = 56 \<and> sint (DynSizeof 32 3) = 68 \<and>
   sint (DynSizeof 32 8) = 128 \<and> sint (DynSizeof 32 64) = 800"
  using DynSizeof_exact [of 1 32] DynSizeof_exact [of 2 32] DynSizeof_exact [of 3 32]
    DynSizeof_exact [of 8 32] DynSizeof_exact [of 64 32]
  by simp

text \<open>
  C1 as stated fails where the sum leaves the range of \<open>int\<close>: for the dimension \<open>2 ^ 30\<close>
  and a header of 32 bytes the exact size is 12884901920, and \<open>DynSizeof\<close> returns 32.
\<close>

theorem DynSizeof_counterexample:
  "2 \<le> sint (1073741824 :: c_int) \<and>
   sint (DynSizeof 32 1073741824) = 32 \<and>
   sint (DynSizeof 32 1073741824) \<noteq> uint (32 :: size_t) + 3 * sint (1073741824 :: c_int) * 4"
  by (simp add: DynSizeof_def IsMiniDim_def sizeof_float_def)

section \<open>Handles\<close>

lemma SetHandle_nonzero_then_fatal:
  "h1 \<noteq> 0 \<Longrightarrow> SetHandle h1 t = Inr t1 \<Longrightarrow> SetHandle h2 t1 = Inl CHECK_handle_is_zero"
  by (auto simp: SetHandle_def split: if_splits)

lemma SetHandle_zero_then_accepted:
  "SetHandle 0 t = Inr t1 \<Longrightarrow> SetHandle h2 t1 = Inr (t1\<lparr>handle' := h2\<rparr>)"
  by (auto simp: SetHandle_def split: if_splits)

text \<open>
  C4.  The claim fails on the code for the handle 0.  \<open>SetHandle\<close> takes \<open>handle_ == 0\<close> to
  mean that no handle has been assigned, and the registry gives the handle 0 to the first
  table: after \<open>CreateSparseTable\<close> on the empty registry the table has the handle 0, and
  a second \<open>SetHandle\<close>, here with 7, passes the check and replaces the handle.
\<close>

theorem SetHandle_twice_on_first_table:
  "(case CreateSparseTable (\<lambda>adam dimension. ()) (0 :: nat) (Some ()) 8 1 0 \<lparr>tables' = []\<rparr> of
      Inl e \<Rightarrow> False
    | Inr (t, registry) \<Rightarrow>
        handle' t = 0 \<and> tables' registry = [0] \<and> SetHandle 7 t = Inr (t\<lparr>handle' := 7\<rparr>))"
  by (simp add: CreateSparseTable_def SparseTable_new_def Register_def SetHandle_def)

section \<open>Dimension checks\<close>

text \<open>
  C7.  \<open>Pull\<close> and \<open>Push\<close> each stop at \<open>CHECK_EQ(dim_, req->dim())\<close> when the dimension of
  the request differs from the table's; there is no other path, and \<open>Push\<close> has enqueued
  nothing.
\<close>

theorem dim_mismatch_is_fatal:
  "(dim' t \<noteq> pull_dim req \<longrightarrow> Pull GetWeight req resp t = Inl CHECK_EQ_dim) \<and>
   (dim' t \<noteq> push_dim preq \<longrightarrow> Push preq t = (Some CHECK_EQ_dim, t))"
  by (simp add: Pull_def Push_def)

theorem dim_mismatch_is_fatal_witness:
  "dim' ex_table \<noteq> pull_dim (ex_pull\<lparr>pull_dim := 4\<rparr>) \<and>
   dim' ex_table \<noteq> push_dim (ex_push\<lparr>push_dim := 4\<rparr>) \<and>
   Pull ex_GetWeight (ex_pull\<lparr>pull_dim := 4\<rparr>) ex_resp ex_table = Inl CHECK_EQ_dim \<and>
   Push (ex_push\<lparr>push_dim := 4\<rparr>) ex_table = (Some CHECK_EQ_dim, ex_table)"
  using dim_mismatch_is_fatal [of ex_table "ex_pull\<lparr>pull_dim := 4\<rparr>" ex_GetWeight ex_resp
      "ex_push\<lparr>push_dim := 4\<rparr>"]
  by (simp add: ex_table_def ex_pull_def ex_push_def)

section \<open>Push\<close>

lemma copied_grad: "map (\<lambda>j. w ! j) [0..<length w] = w"
  by (rule map_nth)

lemma Push_var_infos_all_ok:
  "\<forall>v \<in> set vs. int (length (var_w v)) = d \<Longrightarrow>
   Push_var_infos d vs q = (None, q @ map grad_info_of vs)"
  by (induction vs arbitrary: q) (simp_all add: grad_info_of_def copied_grad)

lemma Push_var_infos_stops:
  "\<forall>v \<in> set pre. int (length (var_w v)) = d \<Longrightarrow> int (length (var_w bad)) \<noteq> d \<Longrightarrow>
   Push_var_infos d (pre @ bad # post) q = (Some CHECK_EQ_w_size, q @ map grad_info_of pre)"
  by (induction pre arbitrary: q) (simp_all add: grad_info_of_def copied_grad)

text \<open>
  C10.  When the dimension of the request matches, the entries before index \<open>i\<close> have
  \<open>dim_\<close> gradient components and entry \<open>i\<close> has not, \<open>Push\<close> stops at
  \<open>CHECK_EQ(var_info.w_size(), dim_)\<close> with the entries before \<open>i\<close> already enqueued, in
  order; for \<open>i > 0\<close> the queue has changed.
\<close>

theorem Push_not_atomic:
  assumes "dim' t = push_dim req"
    and "i < length (var_infos req)"
    and "\<forall>j < i. int (length (var_w (var_infos req ! j))) = dim' t"
    and "int (length (var_w (var_infos req ! i))) \<noteq> dim' t"
  shows "Push req t =
           (Some CHECK_EQ_w_size,
            t\<lparr>grad_update_queue' :=
                grad_update_queue' t @ map grad_info_of (take i (var_infos req))\<rparr>) \<and>
         (0 < i \<longrightarrow> grad_update_queue' (snd (Push req t)) \<noteq> grad_update_queue' t)"
proof -
  let ?vs = "var_infos req"
  have split: "?vs = take i ?vs @ (?vs ! i) # drop (Suc i) ?vs"
    using assms(2) by (simp add: id_take_nth_drop)
  have pre: "\<forall>v \<in> set (take i ?vs). int (length (var_w v)) = dim' t"
    using assms(2,3) by (auto simp: in_set_conv_nth)
  have "Push_var_infos (dim' t) ?vs (grad_update_queue' t) =
          (Some CHECK_EQ_w_size, grad_update_queue' t @ map grad_info_of (take i ?vs))"
    by (subst split) (rule Push_var_infos_stops [OF pre assms(4)])
  then have main: "Push req t =
           (Some CHECK_EQ_w_size,
            t\<lparr>grad_update_queue' :=
                grad_update_queue' t @ map grad_info_of (take i (var_infos req))\<rparr>)"
    using assms(1) by (simp add: Push_def)
  have "0 < i \<longrightarrow> take i ?vs \<noteq> []"
    using assms(2) by auto
  with main show ?thesis
    by simp
qed

theorem Push_not_atomic_witness:
  "Push ex_push ex_table =
     (Some CHECK_EQ_w_size,
      ex_table\<lparr>grad_update_queue' := [\<lparr>sign = 10, batch_show = 1, grad = [5, 6]\<rparr>]\<rparr>) \<and>
   grad_update_queue' (snd (Push ex_push ex_table)) \<noteq> grad_update_queue' ex_table"
proof -
  have 1: "dim' ex_table = push_dim ex_push"
    by (simp add: ex_table_def ex_push_def)
  have 2: "1 < length (var_infos ex_push)"
    by (simp add: ex_push_def)
  have 3: "\<forall>j < 1. int (length (var_w (var_infos ex_push ! j))) = dim' ex_table"
    by (simp add: ex_table_def ex_push_def)
  have 4: "int (length (var_w (var_infos ex_push ! 1))) \<noteq> dim' ex_table"
    by (simp add: ex_table_def ex_push_def)
  have 5: "map grad_info_of (take 1 (var_infos ex_push)) =
             [\<lparr>sign = 10, batch_show = 1, grad = [5, 6]\<rparr>]"
    by (simp add: ex_push_def grad_info_of_def)
  show ?thesis
    using Push_not_atomic [OF 1 2 3 4] unfolding 5
    by (simp add: ex_table_def)
qed

section \<open>Pull\<close>

lemma take_as_nth: "n \<le> length w \<Longrightarrow> map (\<lambda>j. w ! j) [0..<n] = take n w"
  by (simp add: list_eq_iff_nth_eq)

lemma length_weights_in_order:
  "length (weights_in_order G d ss k) = length ss"
  by (induction ss arbitrary: k) simp_all

lemma weights_in_order_nth:
  "i < length ss \<Longrightarrow>
   weights_in_order G d ss k ! i =
     (case fst (G (ss ! i) (kernel_after G (take i ss) k)) of
        None \<Rightarrow> [] | Some w \<Rightarrow> take (nat d) w)"
proof (induction ss arbitrary: k i)
  case Nil
  then show ?case by simp
next
  case (Cons s ss)
  then show ?case by (cases i) simp_all
qed

lemma Pull_signs_ok:
  assumes "\<forall>i < length ss. \<exists>w. fst (G (ss ! i) (kernel_after G (take i ss) k)) = Some w \<and>
             nat d \<le> length w"
  shows "Pull_signs G d ss k resp =
           Inr (resp\<lparr>weights := weights resp @ weights_in_order G d ss k\<rparr>, kernel_after G ss k)"
  using assms
proof (induction ss arbitrary: k resp)
  case Nil
  then show ?case by simp
next
  case (Cons s ss)
  from Cons.prems [rule_format, of 0]
  obtain w where w: "fst (G s k) = Some w" "nat d \<le> length w"
    by auto
  then have g: "G s k = (Some w, snd (G s k))"
    by (metis prod.collapse)
  have rest: "\<forall>i < length ss. \<exists>w. fst (G (ss ! i) (kernel_after G (take i ss) (snd (G s k)))) = Some w \<and>
             nat d \<le> length w"
  proof (intro allI impI)
    fix i assume "i < length ss"
    then show "\<exists>w. fst (G (ss ! i) (kernel_after G (take i ss) (snd (G s k)))) = Some w \<and>
             nat d \<le> length w"
      using Cons.prems [rule_format, of "Suc i"] by simp
  qed
  show ?case
    using w
    by (subst Pull_signs.simps, subst g) (simp add: Cons.IH [OF rest] take_as_nth)
qed

text \<open>
  C6.  For a request whose dimension is the table's (a dimension is not negative), into
  an empty response, and with a kernel whose \<open>GetWeight\<close> returns, at each call that
  \<open>Pull\<close> makes, a non-null pointer to at least \<open>dim_\<close> floats: \<open>Pull\<close> succeeds, the
  response holds one weight vector per requested key, vector \<open>i\<close> has length \<open>dim_\<close> and
  is what \<open>GetWeight\<close> returned for key \<open>i\<close> (looked up after the keys before it), and
  the response echoes the request's table handle and dimension.
\<close>

theorem Pull_one_vector_per_key:
  assumes "dim' t = pull_dim req"
    and "0 \<le> dim' t"
    and "weights resp = []"
    and "\<forall>i < length (signs req).
           \<exists>w. fst (GetWeight (signs req ! i)
                       (kernel_after GetWeight (take i (signs req)) (op_kernel' t))) = Some w \<and>
               nat (dim' t) \<le> length w"
  shows "\<exists>resp'.
           Pull GetWeight req resp t =
             Inr (resp', t\<lparr>op_kernel' := kernel_after GetWeight (signs req) (op_kernel' t)\<rparr>) \<and>
           length (weights resp') = length (signs req) \<and>
           (\<forall>i < length (signs req).
              int (length (weights resp' ! i)) = dim' t \<and>
              (\<exists>w. fst (GetWeight (signs req ! i)
                           (kernel_after GetWeight (take i (signs req)) (op_kernel' t))) = Some w \<and>
                   weights resp' ! i = take (nat (dim' t)) w)) \<and>
           resp_table_handle resp' = pull_table_handle req \<and>
           resp_dim resp' = pull_dim req"
proof -
  let ?ws = "weights_in_order GetWeight (dim' t) (signs req) (op_kernel' t)"
  let ?resp = "resp\<lparr>resp_table_handle := pull_table_handle req, resp_dim := pull_dim req,
                    weights := ?ws\<rparr>"
  have "Pull GetWeight req resp t =
          Inr (?resp, t\<lparr>op_kernel' := kernel_after GetWeight (signs req) (op_kernel' t)\<rparr>)"
    using assms(1,3)
      Pull_signs_ok [OF assms(4),
        of "resp\<lparr>resp_table_handle := pull_table_handle req, resp_dim := pull_dim req\<rparr>"]
    by (simp add: Pull_def)
  moreover have "length (weights ?resp) = length (signs req)"
    by (simp add: length_weights_in_order)
  moreover have "\<forall>i < length (signs req).
              int (length (weights ?resp ! i)) = dim' t \<and>
              (\<exists>w. fst (GetWeight (signs req ! i)
                           (kernel_after GetWeight (take i (signs req)) (op_kernel' t))) = Some w \<and>
                   weights ?resp ! i = take (nat (dim' t)) w)"
  proof (intro allI impI)
    fix i assume i: "i < length (signs req)"
    with assms(4) obtain w where
      w: "fst (GetWeight (signs req ! i)
                (kernel_after GetWeight (take i (signs req)) (op_kernel' t))) = Some w"
         "nat (dim' t) \<le> length w"
      by blast
    have "weights ?resp ! i = take (nat (dim' t)) w"
      using i w(1) by (simp add: weights_in_order_nth)
    with w assms(2) show "int (length (weights ?resp ! i)) = dim' t \<and>
              (\<exists>w. fst (GetWeight (signs req ! i)
                           (kernel_after GetWeight (take i (signs req)) (op_kernel' t))) = Some w \<and>
                   weights ?resp ! i = take (nat (dim' t)) w)"
      by simp
  qed
  moreover have "resp_table_handle ?resp = pull_table_handle req" "resp_dim ?resp = pull_dim req"
    by simp_all
  ultimately show ?thesis
    by blast
qed

theorem Pull_one_vector_per_key_witness:
  "Pull ex_GetWeight ex_pull ex_resp ex_table =
     Inr (\<lparr>resp_table_handle = 3, resp_dim = 2, weights = [[10, 0], [20, 1]]\<rparr>,
          ex_table\<lparr>op_kernel' := 2\<rparr>)"
proof -
  have 1: "dim' ex_table = pull_dim ex_pull"
    by (simp add: ex_table_def ex_pull_def)
  have 2: "0 \<le> dim' ex_table"
    by (simp add: ex_table_def)
  have 3: "weights ex_resp = []"
    by (simp add: ex_resp_def)
  have 4: "\<forall>i < length (signs ex_pull).
           \<exists>w. fst (ex_GetWeight (signs ex_pull ! i)
                       (kernel_after ex_GetWeight (take i (signs ex_pull)) (op_kernel' ex_table))) = Some w \<and>
               nat (dim' ex_table) \<le> length w"
    by (simp add: ex_table_def ex_pull_def ex_GetWeight_def)
  from Pull_one_vector_per_key [OF 1 2 3 4]
  obtain resp' where r: "Pull ex_GetWeight ex_pull ex_resp ex_table =
       Inr (resp', ex_table\<lparr>op_kernel' := kernel_after ex_GetWeight (signs ex_pull) (op_kernel' ex_table)\<rparr>)"
      "length (weights resp') = length (signs ex_pull)"
      "resp_table_handle resp' = pull_table_handle ex_pull"
      "resp_dim resp' = pull_dim ex_pull"
      and w: "\<forall>i < length (signs ex_pull). 
              (\<exists>w. fst (ex_GetWeight (signs ex_pull ! i)
                           (kernel_after ex_GetWeight (take i (signs ex_pull)) (op_kernel' ex_table))) = Some w \<and>
                   weights resp' ! i = take (nat (dim' ex_table)) w)"
    by blast
  have k: "kernel_after ex_GetWeight (signs ex_pull) (op_kernel' ex_table) = 2"
    by (simp add: ex_table_def ex_pull_def ex_GetWeight_def)
  have "weights resp' ! 0 = [10, 0]" 
    using w [rule_format, of 0] by (simp add: ex_table_def ex_pull_def ex_GetWeight_def)
  moreover have "weights resp' ! 1 = [20, 1]" 
    using w [rule_format, of 1] by (simp add: ex_table_def ex_pull_def ex_GetWeight_def)
  moreover have "length (weights resp') = 2"
    using r(2) by (simp add: ex_pull_def)
  ultimately have "weights resp' = [[10, 0], [20, 1]]"
    by (simp add: list_eq_iff_nth_eq less_Suc_eq numeral_2_eq_2)
  then have "resp' = \<lparr>resp_table_handle = 3, resp_dim = 2, weights = [[10, 0], [20, 1]]\<rparr>"
    using r(3,4) by (cases resp') (simp add: ex_pull_def)
  with r(1) k show ?thesis
    by simp
qed

section \<open>The stream format\<close>

lemma Read_Write_sparse:
  assumes "value_ok r" and "value_dim' r0 = value_dim' r"
  shows "Read r0 (Write r @ rest) = Some (r, rest)"
proof -
  obtain d w m v s where r: "r = \<lparr>value_dim' = d, Weight = w, M = m, V = v, show' = s\<rparr>"
    by (cases r) simp
  obtain d0 w0 m0 v0 s0 where
    r0: "r0 = \<lparr>value_dim' = d0, Weight = w0, M = m0, V = v0, show' = s0\<rparr>"
    by (cases r0) simp
  from assms show ?thesis
    by (simp add: r r0 value_ok_def Read_def Write_def)
qed

lemma Read_Write_dense:
  assumes "length (dense_w r0) = length (dense_w r)"
    and "length (dense_m r0) = length (dense_m r)"
    and "length (dense_v r0) = length (dense_v r)"
  shows "Read_dense r0 (Write_dense r @ rest) = Some (r, rest)"
proof -
  obtain a b w m v where
    r: "r = \<lparr>beta1_power' = a, beta2_power' = b, dense_w = w, dense_m = m, dense_v = v\<rparr>"
    by (cases r) simp
  obtain a0 b0 w0 m0 v0 where
    r0: "r0 = \<lparr>beta1_power' = a0, beta2_power' = b0, dense_w = w0, dense_m = m0, dense_v = v0\<rparr>"
    by (cases r0) simp
  from assms show ?thesis
    by (simp add: r r0 Read_dense_def Write_dense_def)
qed

text \<open>
  C2.  Reading what \<open>Write\<close> wrote gives the record back, field for field, and leaves the
  rest of the stream: for a sparse record of dimension \<open>d \<ge> 1\<close> whose arrays hold \<open>d\<close>
  floats, read into a record of the same dimension (the predicate \<open>IsMiniDim\<close> plays no
  part, so this covers the inline path \<open>d < 2\<close> and the trailing-region path \<open>d \<ge> 2\<close>),
  and for a dense record read into one with arrays of the same sizes.
\<close>

theorem Read_after_Write:
  "(1 \<le> value_dim' r \<and> value_ok r \<and> value_dim' r0 = value_dim' r \<longrightarrow>
      Read r0 (Write r @ rest) = Some (r, rest)) \<and>
   (length (dense_w q0) = length (dense_w q) \<and> length (dense_m q0) = length (dense_m q) \<and>
    length (dense_v q0) = length (dense_v q) \<longrightarrow>
      Read_dense q0 (Write_dense q @ rest) = Some (q, rest))"
  by (simp add: Read_Write_sparse Read_Write_dense)

theorem Read_after_Write_witness:
  "Read (blank_value 1) (Write (ex_value 1)) = Some (ex_value 1, []) \<and>
   Read (blank_value 3) (Write (ex_value 3)) = Some (ex_value 3, []) \<and>
   Write (ex_value 3) = [7, 1, 2, 3, 11, 12, 13, 21, 22, 23]"
proof -
  have 1: "1 \<le> value_dim' (ex_value 1) \<and> value_ok (ex_value 1) \<and>
           value_dim' (blank_value 1) = value_dim' (ex_value 1)"
    by (simp add: ex_value_def blank_value_def value_ok_def)
  have 3: "1 \<le> value_dim' (ex_value 3) \<and> value_ok (ex_value 3) \<and>
           value_dim' (blank_value 3) = value_dim' (ex_value 3)"
    by (simp add: ex_value_def blank_value_def value_ok_def)
  have w: "Write (ex_value 3) = [7, 1, 2, 3, 11, 12, 13, 21, 22, 23]"
    by (simp add: ex_value_def Write_def upt_rec)
  show ?thesis
    using Read_after_Write [of "ex_value 1" "blank_value 1" "[]"]
      Read_after_Write [of "ex_value 3" "blank_value 3" "[]"] 1 3 w
    by simp
qed

section \<open>Save and Load\<close>

text \<open>
  C8.  \<open>Save\<close> and \<open>Load\<close> pass the same file name to the kernel, the directory followed by
  \<open>/sparse_table/\<close>, the table handle in decimal, \<open>/rank_\<close> and the shard id in decimal;
  so when \<open>Serialized\<close> stores the kernel's dump under the name it is given, \<open>Load\<close> with
  the same directory looks up that dump.
\<close>

theorem Save_Load_same_file:
  "Save Serialized directory t =
     Serialized (spec_shard_file directory (handle' t) (self_shard_id' t)) (op_kernel' t) \<and>
   Load DeSerialized directory t =
     DeSerialized (spec_shard_file directory (handle' t) (self_shard_id' t)) (op_kernel' t) \<and>
   Load (\<lambda>file kern. Save (\<lambda>file kern. fs(file \<mapsto> dump kern)) directory t file) directory t =
     Some (dump (op_kernel' t))"
  by (simp add: Save_def Load_def spec_shard_file_def GetHandle_def)

lemma shard_file_example:
  "spec_shard_file ''/ckpt'' 3 1 = ''/ckpt/sparse_table/3/rank_1'' \<and>
   spec_shard_file ''out'' 12 (- 1) = ''out/sparse_table/12/rank_-1'' \<and>
   Save (\<lambda>file kern. file) ''/ckpt'' ex_table = ''/ckpt/sparse_table/3/rank_1''"
  by (simp add: spec_shard_file_def to_string_uint32_def to_string_int_def decimal.simps
      Save_def GetHandle_def ex_table_def)

section \<open>The registry\<close>

lemma handle_of_count:
  "n < 2 ^ 32 \<Longrightarrow> unat (ucast (of_nat n :: size_t) :: uint32) = n"
  by (simp add: unsigned_ucast_eq unsigned_of_nat take_bit_nat_eq_self)

lemma Register_handle:
  "length (tables' r) < 2 ^ 32 \<Longrightarrow> unat (fst (Register p r)) = length (tables' r)"
  by (simp add: Register_def handle_of_count)

lemma Register_tables: "tables' (snd (Register p r)) = tables' r @ [p]"
  by (simp add: Register_def)

lemma fst_Register_all_Cons:
  "fst (Register_all (p # ps) r) =
     fst (Register p r) # fst (Register_all ps (snd (Register p r)))"
  by (simp split: prod.splits)

lemma snd_Register_all_Cons:
  "snd (Register_all (p # ps) r) = snd (Register_all ps (snd (Register p r)))"
  by (simp split: prod.splits)

lemma Register_all_tables: "tables' (snd (Register_all ps r)) = tables' r @ ps"
proof (induction ps arbitrary: r)
  case Nil
  then show ?case by simp
next
  case (Cons p ps)
  show ?case
    by (simp only: snd_Register_all_Cons Cons.IH Register_tables) simp
qed

lemma Register_all_handles:
  "length (tables' r) + length ps \<le> 2 ^ 32 \<Longrightarrow>
   map unat (fst (Register_all ps r)) = [length (tables' r) ..< length (tables' r) + length ps]"
proof (induction ps arbitrary: r)
  case Nil
  then show ?case by simp
next
  case (Cons p ps)
  let ?r = "snd (Register p r)"
  have len: "length (tables' ?r) = Suc (length (tables' r))"
    by (simp add: Register_tables)
  have h: "unat (fst (Register p r)) = length (tables' r)"
    using Cons.prems by (intro Register_handle) simp
  have "map unat (fst (Register_all ps ?r)) =
          [length (tables' ?r) ..< length (tables' ?r) + length ps]"
    using Cons.prems by (intro Cons.IH) (simp add: len)
  then have "map unat (fst (Register_all (p # ps) r)) =
          length (tables' r) # [Suc (length (tables' r)) ..< Suc (length (tables' r)) + length ps]"
    using h by (simp only: fst_Register_all_Cons list.map len add_Suc)
  moreover have "[length (tables' r) ..< length (tables' r) + length (p # ps)] =
          length (tables' r) # [Suc (length (tables' r)) ..< Suc (length (tables' r)) + length ps]"
    by (simp add: upt_rec)
  ultimately show ?case
    by (simp only:)
qed

lemma Get_out_of_range:
  "length (tables' r) \<le> unat h \<Longrightarrow> Get h r = Inl CHECK_table_handle_in_range"
  by (simp add: Get_def)

lemma Get_registered:
  "length (tables' r) < 2 ^ 32 \<Longrightarrow> Get (fst (Register p r)) (snd (Register p r)) = Inr p"
  using Register_handle [of r p]
  by (simp add: Get_def Register_tables)

text \<open>
  C5, as amended.  While fewer than \<open>2 ^ 32\<close> tables are registered, \<open>Register\<close> returns
  the number of tables registered before, appends the table, and \<open>Get\<close> of the new handle
  returns it; a run of registrations that leaves at most \<open>2 ^ 32\<close> tables returns the
  consecutive counts, which increase strictly and are never repeated; and \<open>Get h\<close> fails
  for every \<open>h\<close> that is at least the number of registered tables.
\<close>

theorem Register_counts:
  "(length (tables' r) < 2 ^ 32 \<longrightarrow>
      unat (fst (Register p r)) = length (tables' r) \<and>
      tables' (snd (Register p r)) = tables' r @ [p] \<and>
      Get (fst (Register p r)) (snd (Register p r)) = Inr p) \<and>
   (length (tables' r) + length ps \<le> 2 ^ 32 \<longrightarrow>
      map unat (fst (Register_all ps r)) =
        [length (tables' r) ..< length (tables' r) + length ps] \<and>
      sorted_wrt (<) (map unat (fst (Register_all ps r))) \<and>
      distinct (fst (Register_all ps r))) \<and>
   (length (tables' r) \<le> unat h \<longrightarrow> Get h r = Inl CHECK_table_handle_in_range)"
proof (intro conjI impI)
  assume a: "length (tables' r) + length ps \<le> 2 ^ 32"
  then have m: "map unat (fst (Register_all ps r)) =
        [length (tables' r) ..< length (tables' r) + length ps]"
    by (rule Register_all_handles)
  then show "sorted_wrt (<) (map unat (fst (Register_all ps r)))"
    by (simp only: sorted_wrt_upt)
  have "distinct (map unat (fst (Register_all ps r)))"
    by (simp only: m distinct_upt)
  then show "distinct (fst (Register_all ps r))"
    by (simp add: distinct_map)
qed (simp_all add: Register_handle Register_tables Get_registered Get_out_of_range Register_all_handles)

theorem Register_counts_witness:
  "fst (Register_all [10, 11, 12, 13, 14 :: nat] \<lparr>tables' = []\<rparr>) = [0, 1, 2, 3, 4] \<and>
   Get 5 (snd (Register_all [10, 11, 12, 13, 14 :: nat] \<lparr>tables' = []\<rparr>)) =
     Inl CHECK_table_handle_in_range \<and>
   Get 4 (snd (Register_all [10, 11, 12, 13, 14 :: nat] \<lparr>tables' = []\<rparr>)) = Inr 14"
proof -
  let ?r = "\<lparr>tables' = []\<rparr> :: nat SparseTableRegistry"
  let ?ps = "[10, 11, 12, 13, 14 :: nat]"
  have t: "snd (Register_all ?ps ?r) = \<lparr>tables' = ?ps\<rparr>"
    by (simp add: Register_def)
  have "map unat (fst (Register_all ?ps ?r)) = [0, 1, 2, 3, 4]"
    using Register_counts [of ?r 0 ?ps 0] by (simp add: upt_rec)
  then have "map (word_of_nat \<circ> unat) (fst (Register_all ?ps ?r)) =
      (map word_of_nat [0, 1, 2, 3, 4] :: uint32 list)"
    by (simp only: map_map [symmetric])
  then have 1: "fst (Register_all ?ps ?r) = [0, 1, 2, 3, 4]"
    by (simp add: comp_def)
  have 2: "Get 5 \<lparr>tables' = ?ps\<rparr> = Inl CHECK_table_handle_in_range"
    using Register_counts [of "\<lparr>tables' = ?ps\<rparr>" 0 "[]" 5] by simp
  have 3: "Get 4 \<lparr>tables' = ?ps\<rparr> = Inr 14"
    using Register_counts [of "\<lparr>tables' = [10, 11, 12, 13 :: nat]\<rparr>" 14 "[]" 0]
    by (simp add: Register_def)
  from 1 2 3 show ?thesis
    by (simp only: t)
qed

text \<open>
  C5 as stated fails once \<open>2 ^ 32\<close> tables have been registered, starting from the empty
  registry: the handle is a \<open>uint32_t\<close>, so the next \<open>Register\<close> returns 0, which is not
  the number of tables and is the handle that the first table received.
\<close>

theorem Register_counterexample:
  "length (tables' (snd (Register_all (replicate 4294967296 (0 :: nat)) \<lparr>tables' = []\<rparr>))) =
     4294967296 \<and>
   unat (fst (Register 1 (snd (Register_all (replicate 4294967296 (0 :: nat))
                                 \<lparr>tables' = []\<rparr>)))) = 0 \<and>
   fst (Register 1 (snd (Register_all (replicate 4294967296 (0 :: nat)) \<lparr>tables' = []\<rparr>))) =
     fst (Register 0 \<lparr>tables' = []\<rparr>)"
proof -
  have t: "tables' (snd (Register_all (replicate 4294967296 (0 :: nat)) \<lparr>tables' = []\<rparr>)) =
      replicate 4294967296 0"
    by (simp add: Register_all_tables)
  show ?thesis
    by (simp add: Register_def t)
qed

section \<open>The applier thread\<close>

lemma run_append: "run A (es1 @ es2) w = run A es2 (run A es1 w)"
  by (induction es1 arbitrary: w) simp_all

lemma step_joined:
  "dtor w = dtor_returned \<longrightarrow> applier w = thread_exited \<Longrightarrow>
   dtor (step A e w) = dtor_returned \<longrightarrow> applier (step A e w) = thread_exited"
  by (cases e; cases "applier w"; cases "dtor w")
     (auto simp: step_def UpdateGrad_def destructor_def split: list.splits)

lemma run_joined:
  "dtor w = dtor_returned \<longrightarrow> applier w = thread_exited \<Longrightarrow>
   dtor (run A es w) = dtor_returned \<longrightarrow> applier (run A es w) = thread_exited"
proof (induction es arbitrary: w)
  case Nil
  then show ?case by simp
next
  case (Cons e es)
  from Cons.prems have "dtor (step A e w) = dtor_returned \<longrightarrow> applier (step A e w) = thread_exited"
    by (rule step_joined)
  then show ?case
    by (simp add: Cons.IH)
qed

lemma step_after_exit:
  assumes "applier w = thread_exited"
  shows "applier (step A e w) = thread_exited \<and>
         Apply_calls (step A e w) = Apply_calls w \<and>
         op_kernel' (table (step A e w)) = op_kernel' (table w)"
  using assms
  by (cases e; cases "dtor w") (simp_all add: step_def UpdateGrad_def destructor_def)

lemma run_after_exit:
  assumes "applier w = thread_exited"
  shows "Apply_calls (run A es w) = Apply_calls w \<and>
         op_kernel' (table (run A es w)) = op_kernel' (table w)"
  using assms
proof (induction es arbitrary: w)
  case Nil
  then show ?case by simp
next
  case (Cons e es)
  from step_after_exit [OF Cons.prems, of A e] Cons.IH [of "step A e w"]
  show ?case by simp
qed

lemma Apply_only_at_Apply:
  "Apply_calls (step A e w) \<noteq> Apply_calls w \<Longrightarrow>
   e = applier_moves \<and> (\<exists>g. applier w = at_Apply g \<and> Apply_calls (step A e w) = Apply_calls w @ [g])"
  by (cases e; cases "applier w"; cases "dtor w")
     (auto simp: step_def UpdateGrad_def destructor_def split: list.splits if_splits)

lemma enter_Apply:
  "applier (step A e w) = at_Apply g \<Longrightarrow> applier w \<noteq> at_Apply g \<Longrightarrow>
   e = applier_moves \<and> applier w = at_inner_pop \<and>
   grad_update_queue' (table w) = g # grad_update_queue' (table (step A e w))"
  by (cases e; cases "applier w"; cases "dtor w")
     (auto simp: step_def UpdateGrad_def destructor_def split: list.splits if_splits)

lemma enter_inner_pop:
  "applier (step A e w) = at_inner_pop \<Longrightarrow> applier w \<noteq> at_inner_pop \<Longrightarrow>
   e = applier_moves \<and>
   ((applier w = at_outer_while \<and> \<not> stop_thread' (table w)) \<or> (\<exists>g. applier w = at_Apply g))"
  by (cases e; cases "applier w"; cases "dtor w")
     (auto simp: step_def UpdateGrad_def destructor_def split: list.splits if_splits)

lemma step_stop_set:
  "dtor w \<noteq> dtor_not_called \<longrightarrow> stop_thread' (table w) \<Longrightarrow>
   dtor (step A e w) \<noteq> dtor_not_called \<longrightarrow> stop_thread' (table (step A e w))"
  by (cases e; cases "applier w"; cases "dtor w")
     (auto simp: step_def UpdateGrad_def destructor_def split: list.splits)

lemma run_stop_set:
  "dtor w \<noteq> dtor_not_called \<longrightarrow> stop_thread' (table w) \<Longrightarrow>
   dtor (run A es w) \<noteq> dtor_not_called \<longrightarrow> stop_thread' (table (run A es w))"
proof (induction es arbitrary: w)
  case Nil
  then show ?case by simp
next
  case (Cons e es)
  from Cons.prems
  have "dtor (step A e w) \<noteq> dtor_not_called \<longrightarrow> stop_thread' (table (step A e w))"
    by (rule step_stop_set)
  then show ?case
    by (simp add: Cons.IH)
qed

text \<open>
  C9.  In every interleaving of the applier thread, the destructor and the pushes that
  starts when the constructor returns: once the destructor has returned, the stop flag is
  set, the applier thread has exited, and whatever is scheduled afterwards adds no call
  of \<open>Apply\<close> and leaves the kernel as it is; the same holds from the moment the thread
  has exited.  Moreover \<open>Apply\<close> is only ever called by the
  applier thread, on the item it has just popped from the queue, and the thread reaches
  the \<open>pop\<close> only from the outer test with the stop flag clear or from applying the
  previous item.
\<close>

theorem no_Apply_after_join:
  "(dtor (run Apply es1 (World_start t)) = dtor_returned \<longrightarrow>
      stop_thread' (table (run Apply es1 (World_start t))) \<and>
      applier (run Apply es1 (World_start t)) = thread_exited \<and>
      Apply_calls (run Apply (es1 @ es2) (World_start t)) =
        Apply_calls (run Apply es1 (World_start t)) \<and>
      op_kernel' (table (run Apply (es1 @ es2) (World_start t))) =
        op_kernel' (table (run Apply es1 (World_start t)))) \<and>
   (applier (run Apply es1 (World_start t)) = thread_exited \<longrightarrow>
      Apply_calls (run Apply (es1 @ es2) (World_start t)) =
        Apply_calls (run Apply es1 (World_start t))) \<and>
   (Apply_calls (step Apply e w) \<noteq> Apply_calls w \<longrightarrow>
      e = applier_moves \<and>
      (\<exists>g. applier w = at_Apply g \<and> Apply_calls (step Apply e w) = Apply_calls w @ [g])) \<and>
   (applier (step Apply e w) = at_Apply g \<and> applier w \<noteq> at_Apply g \<longrightarrow>
      e = applier_moves \<and> applier w = at_inner_pop \<and>
      grad_update_queue' (table w) = g # grad_update_queue' (table (step Apply e w))) \<and>
   (applier (step Apply e w) = at_inner_pop \<and> applier w \<noteq> at_inner_pop \<longrightarrow>
      e = applier_moves \<and>
      ((applier w = at_outer_while \<and> \<not> stop_thread' (table w)) \<or>
       (\<exists>g. applier w = at_Apply g)))"
proof (intro conjI impI)
  let ?w1 = "run Apply es1 (World_start t)"
  assume j: "dtor ?w1 = dtor_returned"
  have "dtor ?w1 \<noteq> dtor_not_called \<longrightarrow> stop_thread' (table ?w1)"
    by (rule run_stop_set) (simp add: World_start_def)
  with j show "stop_thread' (table ?w1)"
    by simp
  have "dtor ?w1 = dtor_returned \<longrightarrow> applier ?w1 = thread_exited"
    by (rule run_joined) (simp add: World_start_def)
  with j show x: "applier ?w1 = thread_exited"
    by simp
  from run_after_exit [OF x, of Apply es2]
  show "Apply_calls (run Apply (es1 @ es2) (World_start t)) = Apply_calls ?w1"
    and "op_kernel' (table (run Apply (es1 @ es2) (World_start t))) = op_kernel' (table ?w1)"
    by (simp_all add: run_append)
next
  assume "applier (run Apply es1 (World_start t)) = thread_exited"
  from run_after_exit [OF this, of Apply es2]
  show "Apply_calls (run Apply (es1 @ es2) (World_start t)) =
      Apply_calls (run Apply es1 (World_start t))"
    by (simp add: run_append)
next
  assume "Apply_calls (step Apply e w) \<noteq> Apply_calls w"
  from Apply_only_at_Apply [OF this]
  show "e = applier_moves"
    and "\<exists>g. applier w = at_Apply g \<and> Apply_calls (step Apply e w) = Apply_calls w @ [g]"
    by blast+
next
  assume "applier (step Apply e w) = at_Apply g \<and> applier w \<noteq> at_Apply g"
  then have "e = applier_moves \<and> applier w = at_inner_pop \<and>
      grad_update_queue' (table w) = g # grad_update_queue' (table (step Apply e w))"
    using enter_Apply [of Apply e w g] by blast
  then show "e = applier_moves" and "applier w = at_inner_pop"
    and "grad_update_queue' (table w) = g # grad_update_queue' (table (step Apply e w))"
    by simp_all
next
  assume "applier (step Apply e w) = at_inner_pop \<and> applier w \<noteq> at_inner_pop"
  then have "e = applier_moves \<and>
      ((applier w = at_outer_while \<and> \<not> stop_thread' (table w)) \<or> (\<exists>g. applier w = at_Apply g))"
    using enter_inner_pop [of Apply e w] by blast
  then show "e = applier_moves"
    and "(applier w = at_outer_while \<and> \<not> stop_thread' (table w)) \<or> (\<exists>g. applier w = at_Apply g)"
    by simp_all
qed

lemmas ex_defs = ex_schedule_def ex_later_def World_start_def step_def UpdateGrad_def
  destructor_def ex_table_def ex_Apply_def ex_grad_def

theorem no_Apply_after_join_witness:
  "dtor (run ex_Apply ex_schedule (World_start ex_table)) = dtor_returned \<and>
   applier (run ex_Apply ex_schedule (World_start ex_table)) = thread_exited \<and>
   Apply_calls (run ex_Apply (ex_schedule @ ex_later) (World_start ex_table)) = [ex_grad 10] \<and>
   op_kernel' (table (run ex_Apply (ex_schedule @ ex_later) (World_start ex_table))) = 1 \<and>
   grad_update_queue' (table (run ex_Apply (ex_schedule @ ex_later) (World_start ex_table))) =
     [ex_grad 20] \<and>
   applier (run ex_Apply [push_enqueues (ex_grad 10), applier_moves, applier_moves]
              (World_start ex_table)) = at_Apply (ex_grad 10) \<and>
   Apply_calls (run ex_Apply [push_enqueues (ex_grad 10), applier_moves, applier_moves, applier_moves]
              (World_start ex_table)) = [ex_grad 10]"
proof -
  let ?w0 = "World_start ex_table"
  let ?w1 = "run ex_Apply [push_enqueues (ex_grad 10), applier_moves] ?w0"
  let ?w2 = "run ex_Apply [push_enqueues (ex_grad 10), applier_moves, applier_moves] ?w0"
  have j: "dtor (run ex_Apply ex_schedule ?w0) = dtor_returned"
    by (simp add: ex_defs)
  have c: "Apply_calls (run ex_Apply ex_schedule ?w0) = [ex_grad 10]"
    "op_kernel' (table (run ex_Apply ex_schedule ?w0)) = 1"
    by (simp_all add: ex_defs)
  have q: "grad_update_queue' (table (run ex_Apply (ex_schedule @ ex_later) ?w0)) = [ex_grad 20]"
    by (simp add: ex_defs)
  have a: "Apply_calls (step ex_Apply applier_moves ?w2) \<noteq> Apply_calls ?w2"
    by (simp add: ex_defs)
  have b: "applier (step ex_Apply applier_moves ?w1) = at_Apply (ex_grad 10) \<and>
           applier ?w1 \<noteq> at_Apply (ex_grad 10)"
    by (simp add: ex_defs)
  have d: "applier (step ex_Apply applier_moves ?w0) = at_inner_pop \<and> applier ?w0 \<noteq> at_inner_pop"
    by (simp add: ex_defs)
  have s2: "step ex_Apply applier_moves ?w2 =
      run ex_Apply [push_enqueues (ex_grad 10), applier_moves, applier_moves, applier_moves] ?w0"
    by simp
  have s1: "step ex_Apply applier_moves ?w1 = ?w2"
    by simp
  from no_Apply_after_join [of ex_Apply ex_schedule ex_table ex_later applier_moves ?w2] j c a
  have 1: "Apply_calls (run ex_Apply (ex_schedule @ ex_later) ?w0) = [ex_grad 10]"
    "op_kernel' (table (run ex_Apply (ex_schedule @ ex_later) ?w0)) = 1"
    "\<exists>g. applier ?w2 = at_Apply g \<and>
         Apply_calls (step ex_Apply applier_moves ?w2) = Apply_calls ?w2 @ [g]"
    by simp_all
  from no_Apply_after_join [of ex_Apply ex_schedule ex_table ex_later applier_moves ?w1 "ex_grad 10"] b
  have 2: "applier ?w1 = at_inner_pop"
    by blast
  from no_Apply_after_join [of ex_Apply ex_schedule ex_table ex_later applier_moves ?w0] d
  have 3: "(applier ?w0 = at_outer_while \<and> \<not> stop_thread' (table ?w0)) \<or>
       (\<exists>g. applier ?w0 = at_Apply g)"
    by blast
  have 4: "applier ?w2 = at_Apply (ex_grad 10)"
    using b by (simp only: s1)
  have "Apply_calls ?w2 = []"
    by (simp add: ex_defs)
  with 1(3) 4 have 5: "Apply_calls (step ex_Apply applier_moves ?w2) = [ex_grad 10]"
    by simp
  have x: "applier (run ex_Apply ex_schedule ?w0) = thread_exited"
    by (simp add: ex_defs)
  from j x 1(1,2) q 4 5 show ?thesis
    by (simp only: s2)
qed

end
